theory Spec2Isabelle
  imports Main "HOL-Library.Multiset"
begin

section \<open>Research hub: documents, store and session state\<close>

text \<open>
  The program is a single React component (\<^verbatim>\<open>src/App.jsx\<close>) over two Firestore
  collections, \<^verbatim>\<open>papers\<close> and \<^verbatim>\<open>comments\<close>. A collection is an association
  list from document ids to documents (the order is the order of a snapshot); the React
  state of one session is a record; an event handler takes the session state and the store
  and returns both, updated. A call to the store can be rejected by the store (transport,
  permission, contention): each handler takes the rejection it meets, if any, as an argument.
\<close>

type_synonym uid = string
type_synonym doc_id = string

text \<open>
  A Firestore timestamp: whole seconds and the nanoseconds within the second (from 0 to
  999999999). The program reads \<^verbatim>\<open>timestamp.seconds\<close> only. \<open>nanos_of\<close> is the
  instant as one number, the order of the timestamps.
\<close>

record fs_timestamp =
  seconds :: int
  nanoseconds :: int

definition nanos_of :: "fs_timestamp \<Rightarrow> int" where
  "nanos_of t = seconds t * 1000000000 + nanoseconds t"

text \<open>
  A paper document. \<^verbatim>\<open>likes\<close> and \<^verbatim>\<open>likedBy\<close> are read with a default
  (\<^verbatim>\<open>data.likes || 0\<close>, \<^verbatim>\<open>data.likedBy || []\<close>), so they may be absent.
\<close>

record paper_doc =
  title :: string
  content :: string
  authorId :: uid
  likes :: "int option"
  likedBy :: "uid list option"
  createdAt :: "fs_timestamp option"
  updatedAt :: "fs_timestamp option"

record comment_doc =
  paperId :: doc_id
  userId :: uid
  text_c :: string
  timestamp :: "fs_timestamp option"

text \<open>What a snapshot handler builds: \<^verbatim>\<open>{ id: doc.id, ...doc.data() }\<close>.\<close>

record paper =
  id_p :: doc_id
  data_p :: paper_doc

record comment =
  id_c :: doc_id
  data_c :: comment_doc

record store =
  papers_col :: "(doc_id \<times> paper_doc) list"
  comments_col :: "(doc_id \<times> comment_doc) list"

text \<open>
  The React state of \<^verbatim>\<open>App\<close>. \<^verbatim>\<open>db\<close> tells whether the Firestore handle is
  set; \<^verbatim>\<open>console\<close> collects the messages of \<^verbatim>\<open>console.error\<close>.
\<close>

record app =
  db :: bool
  userId :: "uid option"
  dbError :: "string option"
  papers :: "paper list"
  selectedPaper :: "paper option"
  comments :: "comment list"
  newPaperTitle :: string
  newPaperContent :: string
  newCommentText :: string
  isEditing :: bool
  editTitle :: string
  editContent :: string
  showDeleteConfirmation :: bool
  console :: "string list"

text \<open>
  Errors. \<open>NotFound\<close> is the \<^verbatim>\<open>Error("Document does not exist!")\<close> thrown inside the
  like transaction; \<open>StoreError msg\<close> is a rejection by the store with the store's message.
\<close>

datatype error = NotFound | StoreError string

fun message :: "error \<Rightarrow> string" where
  "message NotFound = ''Document does not exist!''"
| "message (StoreError msg) = msg"

subsection \<open>JavaScript helpers\<close>

text \<open>\<^verbatim>\<open>!userId\<close>: true for \<^verbatim>\<open>null\<close> and for the empty string.\<close>

fun falsy :: "string option \<Rightarrow> bool" where
  "falsy None = True"
| "falsy (Some u) = (u = [])"

text \<open>
  \<^verbatim>\<open>String.prototype.trim\<close>. A character of the model is a code unit below 256; the
  white space and line terminators of JavaScript in that range are the tab, the line feed,
  the vertical tab, the form feed, the carriage return, the space and the no-break space
  U+00A0.
\<close>

definition is_space :: "char \<Rightarrow> bool" where
  "is_space c =
     (c \<in> set [CHR '' '', CHR 0x09, CHR 0x0A, CHR 0x0B, CHR 0x0C, CHR 0x0D, CHR 0xA0])"

definition trim :: "string \<Rightarrow> string" where
  "trim s = rev (dropWhile is_space (rev (dropWhile is_space s)))"

text \<open>
  A JavaScript number is an IEEE double. On integers, a sum or a difference is the exact
  result rounded to the nearest double, a tie going to the even significand: exact up to
  magnitude \<open>2^53 = 9007199254740992\<close>, and beyond it a multiple of the spacing of the
  doubles at that magnitude (2 up to \<open>2^54\<close>, 4 up to \<open>2^55\<close>, and so on; the
  overflow to infinity at \<open>2^1024\<close> is left out).
\<close>

fun spacing :: "nat \<Rightarrow> nat" where
  "spacing m = (if m < 9007199254740992 then 1 else 2 * spacing (m div 2))"

declare spacing.simps [simp del]

definition round_double :: "int \<Rightarrow> int" where
  "round_double x =
     (if \<bar>x\<bar> \<le> 9007199254740992 then x
      else (let q = int (spacing (nat \<bar>x\<bar>));
                lo = (x div q) * q;
                r = x - lo
            in if 2 * r < q then lo
               else if q < 2 * r then lo + q
               else if even (x div q) then lo else lo + q))"

definition js_add :: "int \<Rightarrow> int \<Rightarrow> int" where
  "js_add a b = round_double (a + b)"

definition js_sub :: "int \<Rightarrow> int \<Rightarrow> int" where
  "js_sub a b = round_double (a - b)"


subsection \<open>The effect that follows a render\<close>

text \<open>
  The effect of the comments listener (lines 227 to 231) runs after a render in which
  \<^verbatim>\<open>db\<close>, \<^verbatim>\<open>userId\<close> or \<^verbatim>\<open>selectedPaper\<close> changed. Without a selected paper
  it empties the comment list; with one it subscribes, and the list changes when the first
  snapshot of the subscription arrives.
\<close>

definition comments_effect :: "app \<Rightarrow> app" where
  "comments_effect s =
     (if \<not> db s \<or> falsy (userId s) \<or> selectedPaper s = None then s\<lparr>comments := []\<rparr> else s)"

definition rerender :: "app \<Rightarrow> app \<Rightarrow> app" where
  "rerender s s' =
     (if db s' \<noteq> db s \<or> userId s' \<noteq> userId s \<or> selectedPaper s' \<noteq> selectedPaper s
      then comments_effect s' else s')"

subsection \<open>Store primitives\<close>

definition getDoc :: "doc_id \<Rightarrow> (doc_id \<times> 'd) list \<Rightarrow> 'd option" where
  "getDoc i col = map_of col i"

definition addDoc :: "doc_id \<Rightarrow> 'd \<Rightarrow> (doc_id \<times> 'd) list \<Rightarrow> (doc_id \<times> 'd) list" where
  \<comment> \<open>the id is the one the store assigns\<close>
  "addDoc i d col = col @ [(i, d)]"

definition deleteDoc :: "doc_id \<Rightarrow> (doc_id \<times> 'd) list \<Rightarrow> (doc_id \<times> 'd) list" where
  "deleteDoc i col = filter (\<lambda>kd. fst kd \<noteq> i) col"

definition writeDoc :: "doc_id \<Rightarrow> ('d \<Rightarrow> 'd) \<Rightarrow> (doc_id \<times> 'd) list \<Rightarrow> (doc_id \<times> 'd) list" where
  \<comment> \<open>overwrite some fields of the document \<open>i\<close>\<close>
  "writeDoc i f col = map (\<lambda>kd. if fst kd = i then (fst kd, f (snd kd)) else kd) col"

definition updateDoc ::
  "string option \<Rightarrow> doc_id \<Rightarrow> ('d \<Rightarrow> 'd) \<Rightarrow> (doc_id \<times> 'd) list \<Rightarrow> error + (doc_id \<times> 'd) list" where
  \<comment> \<open>\<^verbatim>\<open>updateDoc\<close> is rejected when the document does not exist\<close>
  "updateDoc fault i f col =
     (case fault of
        Some msg \<Rightarrow> Inl (StoreError msg)
      | None \<Rightarrow> (case getDoc i col of
                  None \<Rightarrow> Inl (StoreError ''not-found'')
                | Some d \<Rightarrow> Inr (writeDoc i f col)))"

subsection \<open>The like toggle\<close>

definition likedBy_of :: "paper_doc \<Rightarrow> uid list" where
  \<comment> \<open>\<^verbatim>\<open>data.likedBy || []\<close>\<close>
  "likedBy_of d = (case likedBy d of None \<Rightarrow> [] | Some xs \<Rightarrow> xs)"

definition likes_of :: "paper_doc \<Rightarrow> int" where
  \<comment> \<open>\<^verbatim>\<open>data.likes || 0\<close>\<close>
  "likes_of d = (case likes d of None \<Rightarrow> 0 | Some n \<Rightarrow> if n = 0 then 0 else n)"

text \<open>
  The body of the transaction of \<^verbatim>\<open>handleLikePaper\<close>: from the document it read,
  the two values it passes to \<^verbatim>\<open>transaction.update\<close>. The inner test of the like
  branch is the source's. The counter is computed in exact integers: that is the code's
  double arithmetic as long as the counter is a safe integer (lemmas \<open>js_add_safe\<close> and
  \<open>js_sub_safe\<close>); from \<open>2^53\<close> on the code's \<^verbatim>\<open>+= 1\<close> rounds (lemma
  \<open>js_add_rounds\<close>) and the model is no longer the code. A counter that is the length of
  \<open>likedBy\<close> never comes near that bound.
\<close>

definition toggle_fields :: "uid \<Rightarrow> paper_doc \<Rightarrow> int \<times> uid list" where
  "toggle_fields u d =
     (let likedBy0 = likedBy_of d;
          isCurrentlyLiked = (u \<in> set likedBy0);
          newLikesCount = likes_of d
      in if isCurrentlyLiked
         then (max 0 (newLikesCount - 1), filter (\<lambda>uid. uid \<noteq> u) likedBy0)
         else if u \<notin> set likedBy0
              then (newLikesCount + 1, likedBy0 @ [u])
              else (newLikesCount, likedBy0))"

definition write_fields :: "int \<times> uid list \<Rightarrow> paper_doc \<Rightarrow> paper_doc" where
  \<comment> \<open>\<^verbatim>\<open>update(ref, { likes: newLikesCount, likedBy: newLikedBy })\<close>\<close>
  "write_fields nl d = d\<lparr>likes := Some (fst nl), likedBy := Some (snd nl)\<rparr>"

definition toggle_update :: "uid \<Rightarrow> paper_doc \<Rightarrow> paper_doc" where
  "toggle_update u d = write_fields (toggle_fields u d) d"

definition like_transaction ::
  "uid \<Rightarrow> doc_id \<Rightarrow> (doc_id \<times> paper_doc) list \<Rightarrow> error + (doc_id \<times> paper_doc) list" where
  "like_transaction u i col =
     (case getDoc i col of
        None \<Rightarrow> Inl NotFound
      | Some d \<Rightarrow> Inr (writeDoc i (write_fields (toggle_fields u d)) col))"

definition runTransaction ::
  "string option \<Rightarrow> ('c \<Rightarrow> error + 'c) \<Rightarrow> 'c \<Rightarrow> error + 'c" where
  \<comment> \<open>the store runs the body on the committed state, or rejects the transaction\<close>
  "runTransaction fault body col =
     (case fault of Some msg \<Rightarrow> Inl (StoreError msg) | None \<Rightarrow> body col)"

definition handleLikePaper :: "string option \<Rightarrow> doc_id \<Rightarrow> app \<times> store \<Rightarrow> app \<times> store" where
  "handleLikePaper fault i = (\<lambda>(s, st).
     if \<not> db s \<or> falsy (userId s) then (s, st)
     else (case userId s of
             None \<Rightarrow> (s, st)
           | Some u \<Rightarrow>
               (case runTransaction fault (like_transaction u i) (papers_col st) of
                  Inl e \<Rightarrow>
                    (s\<lparr>console := console s @ [''Error toggling like:''],
                       dbError := Some (''Failed to toggle like: '' @ message e)\<rparr>, st)
                | Inr col \<Rightarrow> (s, st\<lparr>papers_col := col\<rparr>))))"

subsection \<open>Creating and editing a paper\<close>

definition handleAddPaper ::
  "string option \<Rightarrow> doc_id \<Rightarrow> fs_timestamp \<Rightarrow> app \<times> store \<Rightarrow> app \<times> store" where
  \<comment> \<open>\<open>new_id\<close> is the id the store assigns, \<open>now\<close> the server's time\<close>
  "handleAddPaper fault new_id now = (\<lambda>(s, st).
     if \<not> db s \<or> falsy (userId s) \<or> trim (newPaperTitle s) = [] \<or> trim (newPaperContent s) = []
     then (s, st)
     else (case userId s of
             None \<Rightarrow> (s, st)
           | Some u \<Rightarrow>
               (let paperPayload =
                      \<lparr>title = trim (newPaperTitle s), content = trim (newPaperContent s),
                       authorId = u, likes = Some 0, likedBy = Some [],
                       createdAt = Some now, updatedAt = None\<rparr>;
                    s1 = s\<lparr>newPaperTitle := [], newPaperContent := []\<rparr>
                in (case fault of
                      Some msg \<Rightarrow>
                        (s1\<lparr>console := console s1 @ [''Error adding paper:''],
                            dbError := Some (''Failed to save paper: '' @ msg)\<rparr>, st)
                    | None \<Rightarrow> (s1, st\<lparr>papers_col := addDoc new_id paperPayload (papers_col st)\<rparr>)))))"

definition handleEditClick :: "app \<Rightarrow> app" where
  "handleEditClick s =
     (case selectedPaper s of
        None \<Rightarrow> s
      | Some p \<Rightarrow> s\<lparr>editTitle := title (data_p p), editContent := content (data_p p),
                    isEditing := True\<rparr>)"

definition handleUpdatePaper ::
  "string option \<Rightarrow> fs_timestamp \<Rightarrow> app \<times> store \<Rightarrow> app \<times> store" where
  "handleUpdatePaper fault now = (\<lambda>(s, st).
     if \<not> db s \<or> falsy (userId s) \<or> selectedPaper s = None
        \<or> trim (editTitle s) = [] \<or> trim (editContent s) = []
     then (s, st)
     else (case selectedPaper s of
             None \<Rightarrow> (s, st)
           | Some p \<Rightarrow>
               (case updateDoc fault (id_p p)
                       (\<lambda>d. d\<lparr>title := trim (editTitle s), content := trim (editContent s),
                               updatedAt := Some now\<rparr>) (papers_col st) of
                  Inl e \<Rightarrow>
                    (s\<lparr>console := console s @ [''Error updating paper:''],
                       dbError := Some (''Failed to update paper: '' @ message e)\<rparr>, st)
                | Inr col \<Rightarrow> (s\<lparr>isEditing := False\<rparr>, st\<lparr>papers_col := col\<rparr>))))"

subsection \<open>Deleting a paper and its comments\<close>

definition isPaperAuthor :: "app \<Rightarrow> bool" where
  \<comment> \<open>\<^verbatim>\<open>selectedPaper && userId === selectedPaper.authorId\<close>\<close>
  "isPaperAuthor s =
     (case selectedPaper s of
        None \<Rightarrow> False
      | Some p \<Rightarrow> userId s = Some (authorId (data_p p)))"

definition handleDeletePaperClick :: "app \<Rightarrow> app" where
  "handleDeletePaperClick s =
     (if selectedPaper s \<noteq> None \<and> isPaperAuthor s then s\<lparr>showDeleteConfirmation := True\<rparr> else s)"

text \<open>
  What the store does to the three steps of the cascade: reject the deletion of the paper,
  reject the query for its comments, reject the deletion of some of the comments.
\<close>

record delete_faults =
  paper_delete_fault :: "string option"
  query_fault :: "string option"
  comment_delete_faults :: "doc_id list"

definition comments_query :: "doc_id \<Rightarrow> (doc_id \<times> comment_doc) list \<Rightarrow> (doc_id \<times> comment_doc) list" where
  \<comment> \<open>\<^verbatim>\<open>where("paperId", "==", i)\<close>\<close>
  "comments_query i col = filter (\<lambda>kd. paperId (snd kd) = i) col"

text \<open>
  \<^verbatim>\<open>docs.forEach(async (d) => { await deleteDoc(...) })\<close>: a deletion is issued for every
  matched comment; the promises are not awaited and a rejected one is caught by nobody, so
  a rejection stops nothing and reaches neither \<^verbatim>\<open>console.error\<close> nor
  \<^verbatim>\<open>setDbError\<close>.
\<close>

fun delete_each :: "doc_id list \<Rightarrow> doc_id list \<Rightarrow> (doc_id \<times> comment_doc) list \<Rightarrow> (doc_id \<times> comment_doc) list" where
  "delete_each rejected [] col = col"
| "delete_each rejected (k # ks) col =
     delete_each rejected ks (if k \<in> set rejected then col else deleteDoc k col)"

definition executeDeletePaper :: "delete_faults \<Rightarrow> app \<times> store \<Rightarrow> app \<times> store" where
  "executeDeletePaper f = (\<lambda>(s, st).
     if \<not> db s \<or> falsy (userId s) \<or> selectedPaper s = None \<or> \<not> isPaperAuthor s
     then (s\<lparr>showDeleteConfirmation := False\<rparr>, st)
     else (case selectedPaper s of
             None \<Rightarrow> (s\<lparr>showDeleteConfirmation := False\<rparr>, st)
           | Some p \<Rightarrow>
               (let paperIdToDelete = id_p p
                in (case paper_delete_fault f of
                      Some msg \<Rightarrow>
                        (s\<lparr>console := console s @ [''Error deleting paper:''],
                           dbError := Some (''Failed to delete paper: '' @ msg),
                           showDeleteConfirmation := False\<rparr>, st)
                    | None \<Rightarrow>
                        (let st1 = st\<lparr>papers_col := deleteDoc paperIdToDelete (papers_col st)\<rparr>
                         in (case query_fault f of
                               Some msg \<Rightarrow>
                                 (s\<lparr>console := console s @ [''Error deleting paper:''],
                                    dbError := Some (''Failed to delete paper: '' @ msg),
                                    showDeleteConfirmation := False\<rparr>, st1)
                             | None \<Rightarrow>
                                 (let docs = map fst (comments_query paperIdToDelete (comments_col st1));
                                      st2 = st1\<lparr>comments_col :=
                                              delete_each (comment_delete_faults f) docs (comments_col st1)\<rparr>
                                  in (rerender s (s\<lparr>selectedPaper := None,
                                                        showDeleteConfirmation := False\<rparr>),
                                      st2))))))))"

subsection \<open>Comments\<close>

definition handleAddComment ::
  "string option \<Rightarrow> doc_id \<Rightarrow> fs_timestamp \<Rightarrow> app \<times> store \<Rightarrow> app \<times> store" where
  "handleAddComment fault new_id now = (\<lambda>(s, st).
     if \<not> db s \<or> falsy (userId s) \<or> selectedPaper s = None \<or> trim (newCommentText s) = []
     then (s, st)
     else (case (userId s, selectedPaper s) of
             (Some u, Some p) \<Rightarrow>
               (let commentPayload =
                      \<lparr>paperId = id_p p, userId = u, text_c = trim (newCommentText s),
                       timestamp = Some now\<rparr>;
                    s1 = s\<lparr>newCommentText := []\<rparr>
                in (case fault of
                      Some msg \<Rightarrow>
                        (s1\<lparr>console := console s1 @ [''Error adding comment:''],
                            dbError := Some (''Failed to save comment: '' @ msg)\<rparr>, st)
                    | None \<Rightarrow> (s1, st\<lparr>comments_col := addDoc new_id commentPayload (comments_col st)\<rparr>)))
           | _ \<Rightarrow> (s, st)))"

definition handleDeleteComment :: "string option \<Rightarrow> doc_id \<Rightarrow> app \<times> store \<Rightarrow> app \<times> store" where
  "handleDeleteComment fault commentId = (\<lambda>(s, st).
     if \<not> db s \<or> falsy (userId s) then (s, st)
     else (case fault of
             Some msg \<Rightarrow>
               (s\<lparr>console := console s @ [''Error deleting comment:''],
                  dbError := Some (''Failed to delete comment: '' @ msg)\<rparr>, st)
           | None \<Rightarrow> (s, st\<lparr>comments_col := deleteDoc commentId (comments_col st)\<rparr>)))"

text \<open>
  \<^verbatim>\<open>CommentItem\<close> renders the delete button of a comment only under
  \<^verbatim>\<open>isAuthor = currentUserId === comment.userId\<close>. A click is an event of the detail
  view on a displayed comment; where the button is not rendered there is no such event.
\<close>

definition CommentItem_isAuthor :: "uid option \<Rightarrow> comment \<Rightarrow> bool" where
  "CommentItem_isAuthor currentUserId c = (currentUserId = Some (comment_doc.userId (data_c c)))"

definition click_delete_comment ::
  "string option \<Rightarrow> comment \<Rightarrow> app \<times> store \<Rightarrow> (app \<times> store) option" where
  "click_delete_comment fault c = (\<lambda>(s, st).
     if selectedPaper s \<noteq> None \<and> c \<in> set (comments s) \<and> CommentItem_isAuthor (userId s) c
     then Some (handleDeleteComment fault (id_c c) (s, st))
     else None)"

subsection \<open>Snapshots and the focused paper\<close>

definition fetched_papers :: "(doc_id \<times> paper_doc) list \<Rightarrow> paper list" where
  "fetched_papers docs = map (\<lambda>kd. \<lparr>id_p = fst kd, data_p = snd kd\<rparr>) docs"

definition fetched_comments :: "(doc_id \<times> comment_doc) list \<Rightarrow> comment list" where
  "fetched_comments docs = map (\<lambda>kd. \<lparr>id_c = fst kd, data_c = snd kd\<rparr>) docs"

text \<open>The callback of the papers listener (lines 200 to 217).\<close>

definition papers_onSnapshot :: "(doc_id \<times> paper_doc) list \<Rightarrow> app \<Rightarrow> app" where
  "papers_onSnapshot snapshot s =
     (let fetchedPapers = fetched_papers snapshot;
          s1 = s\<lparr>papers := fetchedPapers, dbError := None\<rparr>
      in (case selectedPaper s of
            None \<Rightarrow> s1
          | Some sel \<Rightarrow>
              (case find (\<lambda>p. id_p p = id_p sel) fetchedPapers of
                 Some updatedPaper \<Rightarrow> s1\<lparr>selectedPaper := Some updatedPaper\<rparr>
               | None \<Rightarrow> s1\<lparr>selectedPaper := None\<rparr>)))"

definition on_papers_snapshot :: "(doc_id \<times> paper_doc) list \<Rightarrow> app \<Rightarrow> app" where
  "on_papers_snapshot snapshot s = rerender s (papers_onSnapshot snapshot s)"

definition onSelect :: "paper \<Rightarrow> app \<Rightarrow> app" where
  \<comment> \<open>a click on a card of the list view: \<^verbatim>\<open>setSelectedPaper(paper)\<close>\<close>
  "onSelect p s = rerender s (s\<lparr>selectedPaper := Some p\<rparr>)"

definition back_to_dashboard :: "app \<Rightarrow> app" where
  \<comment> \<open>\<^verbatim>\<open>setSelectedPaper(null); setIsEditing(false)\<close>\<close>
  "back_to_dashboard s = rerender s (s\<lparr>selectedPaper := None, isEditing := False\<rparr>)"

text \<open>
  The callback of the comments listener (lines 239 to 247). \<^verbatim>\<open>Array.prototype.sort\<close>
  is stable, and the comparator is the difference of the keys
  \<^verbatim>\<open>timestamp?.seconds || 0\<close>.
\<close>

definition ts_key :: "comment \<Rightarrow> int" where
  "ts_key c =
     (case timestamp (data_c c) of
        None \<Rightarrow> 0
      | Some t \<Rightarrow> if seconds t = 0 then 0 else seconds t)"

text \<open>
  The instant of a comment, a missing timestamp being time zero: the order in which the
  comments are to be displayed.
\<close>

definition time_of :: "comment \<Rightarrow> int" where
  "time_of c = (case timestamp (data_c c) of None \<Rightarrow> 0 | Some t \<Rightarrow> nanos_of t)"

definition comments_onSnapshot :: "(doc_id \<times> comment_doc) list \<Rightarrow> app \<Rightarrow> app" where
  "comments_onSnapshot snapshot s =
     s\<lparr>comments := sort_key ts_key (fetched_comments snapshot)\<rparr>"

subsection \<open>Which controls are rendered\<close>

text \<open>
  \<^verbatim>\<open>selectedPaper ? renderDetailView() : renderListView()\<close>. The list view shows a card
  for every paper (the search filter is empty), and a click on a card selects it. The
  detail view shows the form with the Save button when \<^verbatim>\<open>isEditing\<close>, and otherwise the
  paper, with the Edit and Delete buttons under \<^verbatim>\<open>isPaperAuthor\<close>.
\<close>

definition card_rendered :: "paper \<Rightarrow> app \<Rightarrow> bool" where
  "card_rendered p s \<longleftrightarrow> selectedPaper s = None \<and> p \<in> set (papers s)"

definition edit_button_rendered :: "app \<Rightarrow> bool" where
  "edit_button_rendered s \<longleftrightarrow> selectedPaper s \<noteq> None \<and> \<not> isEditing s \<and> isPaperAuthor s"

definition save_button_rendered :: "app \<Rightarrow> bool" where
  "save_button_rendered s \<longleftrightarrow> selectedPaper s \<noteq> None \<and> isEditing s"

subsection \<open>Concurrent like transactions on one paper\<close>

text \<open>
  \<^verbatim>\<open>runTransaction\<close> is optimistic: a call reads the document, computes its write from
  what it read, and commits only if the document has not changed since the read; otherwise
  the store runs the body again, or gives up after its bound of attempts. The callers of
  one paper are interleaved at these points: an interleaving is a list of events, and an
  event that does not apply to the caller's status changes nothing.
\<close>

datatype tx_status = Idle | Pending | HasRead paper_doc nat | Committed | Exhausted

datatype tx_event = Read uid | Commit uid | GiveUp uid

record tx_config =
  doc :: paper_doc
  version :: nat
  status :: "uid \<Rightarrow> tx_status"

fun tx_step :: "tx_config \<Rightarrow> tx_event \<Rightarrow> tx_config" where
  "tx_step c (Read u) =
     (case status c u of
        Pending \<Rightarrow> c\<lparr>status := (status c)(u := HasRead (doc c) (version c))\<rparr>
      | _ \<Rightarrow> c)"
| "tx_step c (Commit u) =
     (case status c u of
        HasRead d v \<Rightarrow>
          if v = version c
          then c\<lparr>doc := write_fields (toggle_fields u d) (doc c),
                 version := Suc (version c),
                 status := (status c)(u := Committed)\<rparr>
          else c\<lparr>status := (status c)(u := Pending)\<rparr>
      | _ \<Rightarrow> c)"
| "tx_step c (GiveUp u) =
     (case status c u of
        HasRead d v \<Rightarrow> if v = version c then c else c\<lparr>status := (status c)(u := Exhausted)\<rparr>
      | _ \<Rightarrow> c)"

definition tx_run :: "tx_event list \<Rightarrow> tx_config \<Rightarrow> tx_config" where
  "tx_run evs c = foldl tx_step c evs"

definition tx_init :: "uid list \<Rightarrow> paper_doc \<Rightarrow> tx_config" where
  "tx_init us d = \<lparr>doc = d, version = 0, status = (\<lambda>u. if u \<in> set us then Pending else Idle)\<rparr>"

definition serial :: "uid list \<Rightarrow> tx_event list" where
  \<comment> \<open>the interleaving in which the callers run one after the other\<close>
  "serial us = concat (map (\<lambda>u. [Read u, Commit u]) us)"

definition tx_inv :: "uid list \<Rightarrow> tx_config \<Rightarrow> bool" where
  "tx_inv us c \<longleftrightarrow>
     distinct (likedBy_of (doc c)) \<and>
     set (likedBy_of (doc c)) = {u. status c u = Committed} \<and>
     likes_of (doc c) = int (length (likedBy_of (doc c))) \<and>
     (\<forall>u. u \<notin> set us \<longrightarrow> status c u = Idle) \<and>
     (\<forall>u d v. status c u = HasRead d v \<longrightarrow> v \<le> version c \<and> (v = version c \<longrightarrow> d = doc c))"

subsection \<open>The invariant of a paper\<close>

definition paper_inv :: "paper_doc \<Rightarrow> bool" where
  "paper_inv d \<longleftrightarrow> distinct (likedBy_of d) \<and> likes_of d = int (length (likedBy_of d))"

definition store_inv :: "store \<Rightarrow> bool" where
  "store_inv st \<longleftrightarrow> list_all (\<lambda>kd. paper_inv (snd kd)) (papers_col st)"

subsection \<open>Example data\<close>

text \<open>
  A signed-in session with nothing selected, the paper of the end-to-end scenario
  (title T, content C, written by \<open>alice\<close>) as \<^verbatim>\<open>handleAddPaper\<close> stores it, and
  a store that holds this paper under the id \<open>p1\<close> with one comment of \<open>carol\<close>.
\<close>

definition session :: "uid \<Rightarrow> app" where
  "session u =
     \<lparr>db = True, userId = Some u, dbError = None, papers = [], selectedPaper = None,
      comments = [], newPaperTitle = [], newPaperContent = [], newCommentText = [],
      isEditing = False, editTitle = [], editContent = [], showDeleteConfirmation = False,
      console = []\<rparr>"

definition paper_T :: paper_doc where
  "paper_T =
     \<lparr>title = ''T'', content = ''C'', authorId = ''alice'', likes = Some 0, likedBy = Some [],
      createdAt = Some \<lparr>seconds = 1, nanoseconds = 0\<rparr>, updatedAt = None\<rparr>"

definition comment_1 :: comment_doc where
  "comment_1 =
     \<lparr>paperId = ''p1'', userId = ''carol'', text_c = ''hello'', timestamp = Some \<lparr>seconds = 2, nanoseconds = 0\<rparr>\<rparr>"

definition store_1 :: store where
  "store_1 = \<lparr>papers_col = [(''p1'', paper_T)], comments_col = [(''c1'', comment_1)]\<rparr>"

text \<open>The empty store.\<close>

definition store_0 :: store where
  "store_0 = \<lparr>papers_col = [], comments_col = []\<rparr>"

definition paper_B :: paper_doc where
  "paper_B =
     \<lparr>title = ''B'', content = ''D'', authorId = ''bob'', likes = Some 0, likedBy = Some [],
      createdAt = Some \<lparr>seconds = 3, nanoseconds = 0\<rparr>, updatedAt = None\<rparr>"

definition comment_2 :: comment_doc where
  "comment_2 =
     \<lparr>paperId = ''p2'', userId = ''carol'', text_c = ''hi'', timestamp = Some \<lparr>seconds = 4, nanoseconds = 0\<rparr>\<rparr>"

definition store_2 :: store where
  "store_2 =
     \<lparr>papers_col = [(''p1'', paper_T), (''p2'', paper_B)],
      comments_col = [(''c1'', comment_1), (''c2'', comment_2)]\<rparr>"

definition no_faults :: delete_faults where
  "no_faults = \<lparr>paper_delete_fault = None, query_fault = None, comment_delete_faults = []\<rparr>"

text \<open>
  A session of \<open>bob\<close> that has received the papers of \<open>store_2\<close>; the same session
  after \<open>bob\<close> opened his own paper \<open>p2\<close>, pressed Edit and received its comments;
  and the session after the next snapshot of the papers, taken when \<open>p2\<close> has been
  deleted from another session of \<open>bob\<close>, followed by a click on the card of \<open>p1\<close>.
\<close>

definition listed_session :: app where
  "listed_session = on_papers_snapshot (papers_col store_2) (session ''bob'')"

definition editing_session :: app where
  "editing_session =
     comments_onSnapshot (comments_query ''p2'' (comments_col store_2))
       (handleEditClick (onSelect \<lparr>id_p = ''p2'', data_p = paper_B\<rparr> listed_session))"

definition store_3 :: store where
  "store_3 =
     snd (executeDeletePaper no_faults
            (onSelect \<lparr>id_p = ''p2'', data_p = paper_B\<rparr> listed_session, store_2))"

definition stale_session :: app where
  "stale_session = on_papers_snapshot (papers_col store_3) editing_session"

definition stale_edit_session :: app where
  "stale_edit_session = onSelect \<lparr>id_p = ''p1'', data_p = paper_T\<rparr> stale_session"

text \<open>
  The session of \<open>alice\<close> with her paper \<open>p1\<close> open and the deletion dialogue shown,
  over a store in which \<open>p1\<close> has two comments; and the session of \<open>carol\<close>, who
  wrote the first of them, with \<open>p1\<close> open and its comments received.
\<close>

definition comment_3 :: comment_doc where
  "comment_3 =
     \<lparr>paperId = ''p1'', userId = ''bob'', text_c = ''ok'', timestamp = None\<rparr>"

definition store_4 :: store where
  "store_4 =
     \<lparr>papers_col = [(''p1'', paper_T)],
      comments_col = [(''c1'', comment_1), (''c3'', comment_3)]\<rparr>"

definition opened_p1 :: "uid \<Rightarrow> app" where
  "opened_p1 u =
     comments_onSnapshot (comments_query ''p1'' (comments_col store_4))
       (onSelect \<lparr>id_p = ''p1'', data_p = paper_T\<rparr>
          (on_papers_snapshot (papers_col store_4) (session u)))"

definition confirming_session :: app where
  "confirming_session = handleDeletePaperClick (opened_p1 ''alice'')"

text \<open>The rejections the store can answer the cascade with.\<close>

definition query_rejected :: delete_faults where
  "query_rejected =
     \<lparr>paper_delete_fault = None, query_fault = Some ''unavailable'', comment_delete_faults = []\<rparr>"

definition comment_rejected :: delete_faults where
  "comment_rejected =
     \<lparr>paper_delete_fault = None, query_fault = None, comment_delete_faults = [''c1'']\<rparr>"



definition snapshot_9 :: "(doc_id \<times> comment_doc) list" where
  "snapshot_9 =
     [(''a'', comment_1\<lparr>timestamp := Some \<lparr>seconds = 3, nanoseconds = 0\<rparr>\<rparr>),
      (''b'', comment_1\<lparr>timestamp := None\<rparr>),
      (''c'', comment_1\<lparr>timestamp := Some \<lparr>seconds = 1, nanoseconds = 0\<rparr>\<rparr>),
      (''d'', comment_1\<lparr>timestamp := Some \<lparr>seconds = 2, nanoseconds = 0\<rparr>\<rparr>)]"



definition snapshot_same_second :: "(doc_id \<times> comment_doc) list" where
  "snapshot_same_second =
     [(''late'', comment_1\<lparr>timestamp := Some \<lparr>seconds = 10, nanoseconds = 500000000\<rparr>\<rparr>),
      (''early'', comment_1\<lparr>timestamp := Some \<lparr>seconds = 10, nanoseconds = 100000000\<rparr>\<rparr>)]"

text \<open>Two callers whose transactions on one paper overlap: the later reader commits first.\<close>

definition conflict_schedule :: "tx_event list" where
  "conflict_schedule =
     [Read ''a'', Read ''b'', Commit ''b'', Commit ''a'', Read ''a'', Commit ''a'']"

section \<open>Properties\<close>

subsection \<open>Store primitives and the two fields of a like\<close>


lemma getDoc_writeDoc:
  "getDoc i col = Some d \<Longrightarrow> getDoc i (writeDoc i f col) = Some (f d)"
  by (induction col) (auto simp: getDoc_def writeDoc_def split: if_splits)


lemma likes_of_write_fields [simp]: "likes_of (write_fields nl d) = fst nl"
  by (simp add: likes_of_def write_fields_def)

lemma likedBy_of_write_fields [simp]: "likedBy_of (write_fields nl d) = snd nl"
  by (simp add: likedBy_of_def write_fields_def)

lemma toggle_fields_member:
  "u \<in> set (likedBy_of d) \<Longrightarrow>
   toggle_fields u d = (max 0 (likes_of d - 1), filter (\<lambda>x. x \<noteq> u) (likedBy_of d))"
  by (simp add: toggle_fields_def)

lemma toggle_fields_absent:
  "u \<notin> set (likedBy_of d) \<Longrightarrow> toggle_fields u d = (likes_of d + 1, likedBy_of d @ [u])"
  by (simp add: toggle_fields_def)

lemma handleLikePaper_found:
  "db s \<Longrightarrow> userId s = Some u \<Longrightarrow> u \<noteq> [] \<Longrightarrow> getDoc i (papers_col st) = Some d \<Longrightarrow>
   handleLikePaper None i (s, st) =
     (s, st\<lparr>papers_col := writeDoc i (write_fields (toggle_fields u d)) (papers_col st)\<rparr>)"
  by (simp add: handleLikePaper_def runTransaction_def like_transaction_def)


subsection \<open>The arithmetic of the counter\<close>




lemma spacing_at: "spacing 9007199254740993 = 2" "spacing 9007199254740995 = 2"
  "spacing 9007199254740993 = 2"
  by (simp_all add: spacing.simps)

lemma js_add_rounds:
  "js_add 9007199254740992 1 = 9007199254740992"
  "js_add 9007199254740994 1 = 9007199254740996"
  "js_sub 9007199254740994 1 = 9007199254740992"
  by (simp_all add: js_add_def js_sub_def round_double_def spacing_at)

subsection \<open>The like transaction\<close>



subsection \<open>The invariant of the like counter\<close>

lemma paper_inv_write_fields:
  "paper_inv (write_fields nl d') \<longleftrightarrow> distinct (snd nl) \<and> fst nl = int (length (snd nl))"
  by (simp add: paper_inv_def)

lemma filter_neq_absent: "u \<notin> set xs \<Longrightarrow> filter (\<lambda>x. x \<noteq> u) xs = xs"
  by (induction xs) auto

lemma length_filter_neq_distinct:
  "distinct xs \<Longrightarrow> u \<in> set xs \<Longrightarrow> Suc (length (filter (\<lambda>x. x \<noteq> u) xs)) = length xs"
  by (induction xs) (auto simp: filter_neq_absent)

lemma toggle_fields_inv:
  assumes "paper_inv d"
  shows "distinct (snd (toggle_fields u d)) \<and>
         fst (toggle_fields u d) = int (length (snd (toggle_fields u d)))"
proof (cases "u \<in> set (likedBy_of d)")
  case True
  from assms have dis: "distinct (likedBy_of d)"
    and len: "likes_of d = int (length (likedBy_of d))"
    by (simp_all add: paper_inv_def)
  from dis True
  have "Suc (length (filter (\<lambda>x. x \<noteq> u) (likedBy_of d))) = length (likedBy_of d)"
    by (rule length_filter_neq_distinct)
  then have "int (length (likedBy_of d)) - 1 =
             int (length (filter (\<lambda>x. x \<noteq> u) (likedBy_of d)))"
    by linarith
  with True dis len show ?thesis
    by (simp add: toggle_fields_member)
next
  case False
  with assms show ?thesis
    by (simp add: toggle_fields_absent paper_inv_def)
qed

lemma paper_inv_toggle_update: "paper_inv d \<Longrightarrow> paper_inv (toggle_update u d)"
  by (simp add: toggle_update_def paper_inv_write_fields toggle_fields_inv)

lemma getDoc_Some_mem: "getDoc i col = Some d \<Longrightarrow> (i, d) \<in> set col"
  by (simp add: getDoc_def map_of_SomeD)

lemma store_inv_like_transaction:
  assumes "list_all (\<lambda>kd. paper_inv (snd kd)) col" and "like_transaction u i col = Inr col'"
  shows "list_all (\<lambda>kd. paper_inv (snd kd)) col'"
proof (cases "getDoc i col")
  case None
  with assms(2) show ?thesis by (simp add: like_transaction_def)
next
  case (Some d)
  then have "(i, d) \<in> set col" by (rule getDoc_Some_mem)
  with assms(1) have "paper_inv d" by (auto simp: list_all_iff)
  then have w: "\<And>d'. paper_inv (write_fields (toggle_fields u d) d')"
    by (simp add: paper_inv_write_fields toggle_fields_inv)
  from Some assms(2) have "col' = writeDoc i (write_fields (toggle_fields u d)) col"
    by (simp add: like_transaction_def)
  with assms(1) w show ?thesis
    by (auto simp: writeDoc_def list_all_iff)
qed

lemma store_inv_handleLikePaper:
  assumes "store_inv st"
  shows "store_inv (snd (handleLikePaper fault i (s, st)))"
proof (cases "\<not> db s \<or> falsy (userId s)")
  case True
  with assms show ?thesis by (simp add: handleLikePaper_def)
next
  case False
  then obtain u where u: "userId s = Some u" by (cases "userId s") auto
  show ?thesis
  proof (cases "runTransaction fault (like_transaction u i) (papers_col st)")
    case (Inl e)
    with False u assms show ?thesis by (simp add: handleLikePaper_def)
  next
    case (Inr col')
    then have "like_transaction u i (papers_col st) = Inr col'"
      by (cases fault) (simp_all add: runTransaction_def)
    with assms have "list_all (\<lambda>kd. paper_inv (snd kd)) col'"
      unfolding store_inv_def by (rule store_inv_like_transaction)
    with False u Inr show ?thesis by (simp add: handleLikePaper_def store_inv_def)
  qed
qed

lemma store_inv_handleAddPaper:
  assumes "store_inv st"
  shows "store_inv (snd (handleAddPaper fault new_id now (s, st)))"
  using assms
  by (auto simp: handleAddPaper_def store_inv_def addDoc_def paper_inv_def likes_of_def
      likedBy_of_def Let_def split: option.splits)

text \<open>
  Claim C3. A paper is consistent when \<open>likedBy\<close> has no duplicate and \<open>likes\<close> is its
  length. If every paper of the store is consistent, every paper is consistent after
  \<^verbatim>\<open>handleAddPaper\<close> and after \<^verbatim>\<open>handleLikePaper\<close>, whatever the session, the
  arguments and the answer of the store; the transaction body takes a consistent paper to a
  consistent paper; and the paper that \<^verbatim>\<open>handleAddPaper\<close> stores has \<open>likes = 0\<close>
  and \<open>likedBy = []\<close>.
\<close>

theorem likes_count_invariant:
  "store_inv st \<Longrightarrow>
     store_inv (snd (handleAddPaper fault new_id now (s, st))) \<and>
     store_inv (snd (handleLikePaper fault' i (s, st))) \<and>
     (\<forall>u d. paper_inv d \<longrightarrow> paper_inv (toggle_update u d)) \<and>
     (\<forall>u. db s \<and> userId s = Some u \<and> u \<noteq> [] \<and> trim (newPaperTitle s) \<noteq> [] \<and>
          trim (newPaperContent s) \<noteq> [] \<longrightarrow>
        (\<exists>d. papers_col (snd (handleAddPaper None new_id now (s, st))) =
                papers_col st @ [(new_id, d)] \<and>
             likes d = Some 0 \<and> likedBy d = Some [] \<and> authorId d = u \<and> paper_inv d))"
proof (intro conjI allI impI)
  assume "store_inv st"
  then show "store_inv (snd (handleAddPaper fault new_id now (s, st)))"
    by (rule store_inv_handleAddPaper)
  from \<open>store_inv st\<close> show "store_inv (snd (handleLikePaper fault' i (s, st)))"
    by (rule store_inv_handleLikePaper)
next
  fix u d assume "paper_inv d"
  then show "paper_inv (toggle_update u d)" by (rule paper_inv_toggle_update)
next
  fix u
  assume "db s \<and> userId s = Some u \<and> u \<noteq> [] \<and> trim (newPaperTitle s) \<noteq> [] \<and>
          trim (newPaperContent s) \<noteq> []"
  then show "\<exists>d. papers_col (snd (handleAddPaper None new_id now (s, st))) =
                papers_col st @ [(new_id, d)] \<and>
             likes d = Some 0 \<and> likedBy d = Some [] \<and> authorId d = u \<and> paper_inv d"
    by (simp add: handleAddPaper_def addDoc_def paper_inv_def likes_of_def likedBy_of_def)
qed

theorem likes_count_invariant_witness:
  "store_inv store_1 \<and>
   store_inv (snd (handleLikePaper None ''p1'' (session ''bob'', store_1))) \<and>
   store_inv (snd (handleAddPaper None ''p2'' \<lparr>seconds = 5, nanoseconds = 0\<rparr>
      ((session ''bob'')\<lparr>newPaperTitle := ''A'', newPaperContent := ''B''\<rparr>, store_1))) \<and>
   paper_inv paper_T \<and> paper_inv (toggle_update ''bob'' paper_T)"
proof -
  have p: "paper_inv paper_T"
    by (simp add: paper_inv_def paper_T_def likes_of_def likedBy_of_def)
  then have a: "store_inv store_1"
    by (simp add: store_inv_def store_1_def)
  from likes_count_invariant [OF a] p a show ?thesis by blast
qed

subsection \<open>Repeated toggles of one caller\<close>

lemma toggle_once:
  assumes "db s" and "userId s = Some u" and "u \<noteq> []" and "getDoc i (papers_col st) = Some d"
  shows "\<exists>st'. handleLikePaper None i (s, st) = (s, st') \<and>
           getDoc i (papers_col st') = Some (toggle_update u d)"
  using assms
  by (simp add: handleLikePaper_found getDoc_writeDoc toggle_update_def)

lemma toggle_update_member:
  "u \<in> set (likedBy_of (toggle_update u d)) \<longleftrightarrow> u \<notin> set (likedBy_of d)"
  by (cases "u \<in> set (likedBy_of d)")
     (simp_all add: toggle_update_def toggle_fields_member toggle_fields_absent)

lemma toggle_update_nonneg:
  "0 \<le> likes_of d \<Longrightarrow> 0 \<le> likes_of (toggle_update u d)"
  by (cases "u \<in> set (likedBy_of d)")
     (simp_all add: toggle_update_def toggle_fields_member toggle_fields_absent)

lemma toggle_update_unlike_nonneg:
  "u \<in> set (likedBy_of d) \<Longrightarrow> 0 \<le> likes_of (toggle_update u d)"
  by (simp add: toggle_update_def toggle_fields_member)

text \<open>
  Claim C4. Let a signed-in caller \<open>u\<close> be absent from \<open>likedBy\<close> of an existing
  paper. After \<open>n\<close> calls of \<^verbatim>\<open>handleLikePaper\<close> in a row on that paper, for every
  \<open>n\<close>, the paper exists and \<open>u\<close> is in \<open>likedBy\<close> exactly when \<open>n\<close> is odd; and
  \<open>likes\<close> is not negative, provided it was not negative at the start or at least two
  calls have been made (the unlike floors it at zero).
\<close>

theorem toggle_parity:
  assumes "db s" and "userId s = Some u" and "u \<noteq> []"
    and "getDoc i (papers_col st) = Some d"
    and "u \<notin> set (likedBy_of d)"
  shows "\<exists>st' d'. ((handleLikePaper None i) ^^ n) (s, st) = (s, st') \<and>
           getDoc i (papers_col st') = Some d' \<and>
           (u \<in> set (likedBy_of d') \<longleftrightarrow> odd n) \<and>
           (0 \<le> likes_of d \<or> 2 \<le> n \<longrightarrow> 0 \<le> likes_of d')"
proof (induction n)
  case 0
  with assms show ?case by simp
next
  case (Suc n)
  then obtain st' d' where run: "((handleLikePaper None i) ^^ n) (s, st) = (s, st')"
    and doc: "getDoc i (papers_col st') = Some d'"
    and par: "u \<in> set (likedBy_of d') \<longleftrightarrow> odd n"
    and pos: "0 \<le> likes_of d \<or> 2 \<le> n \<longrightarrow> 0 \<le> likes_of d'"
    by blast
  from toggle_once [OF assms(1-3) doc] obtain st'' where
    step: "handleLikePaper None i (s, st') = (s, st'')"
    and doc': "getDoc i (papers_col st'') = Some (toggle_update u d')"
    by blast
  have "((handleLikePaper None i) ^^ Suc n) (s, st) = (s, st'')"
    using run step by simp
  moreover have "u \<in> set (likedBy_of (toggle_update u d')) \<longleftrightarrow> odd (Suc n)"
    using par by (simp add: toggle_update_member)
  moreover have "0 \<le> likes_of (toggle_update u d')" if h: "0 \<le> likes_of d \<or> 2 \<le> Suc n"
  proof (cases "0 \<le> likes_of d \<or> 2 \<le> n")
    case True
    with pos show ?thesis by (intro toggle_update_nonneg) blast
  next
    case False
    with h have "n = 1" by arith
    with par have "u \<in> set (likedBy_of d')" by simp
    then show ?thesis by (rule toggle_update_unlike_nonneg)
  qed
  ultimately show ?case using doc' by blast
qed

theorem toggle_parity_witness:
  "db (session ''bob'') \<and> userId (session ''bob'') = Some ''bob'' \<and> ''bob'' \<noteq> [] \<and>
   getDoc ''p1'' (papers_col store_1) = Some paper_T \<and>
   ''bob'' \<notin> set (likedBy_of paper_T) \<and> 0 \<le> likes_of paper_T \<and>
   (\<exists>st' d'. ((handleLikePaper None ''p1'') ^^ 3) (session ''bob'', store_1) =
                (session ''bob'', st') \<and>
      getDoc ''p1'' (papers_col st') = Some d' \<and> ''bob'' \<in> set (likedBy_of d') \<and>
      0 \<le> likes_of d')"
proof -
  have a: "db (session ''bob'')" and b: "userId (session ''bob'') = Some ''bob''"
    and c: "''bob'' \<noteq> []"
    by (simp_all add: session_def)
  have d: "getDoc ''p1'' (papers_col store_1) = Some paper_T"
    by (simp add: store_1_def getDoc_def)
  have f: "''bob'' \<notin> set (likedBy_of paper_T)" and g: "0 \<le> likes_of paper_T"
    by (simp_all add: paper_T_def likedBy_of_def likes_of_def)
  from toggle_parity [OF a b c d f, of 3] a b c d f g show ?thesis by simp
qed

subsection \<open>Papers without the like fields\<close>



subsection \<open>The order of the comments\<close>

lemma sorted_positions:
  assumes "sorted (map f xs)" and "i < length xs" and "j < length xs" and "f (xs ! i) < f (xs ! j)"
  shows "i < j"
proof (rule ccontr)
  assume "\<not> i < j"
  then have "j \<le> i" by simp
  with assms(1,2) have "map f xs ! j \<le> map f xs ! i"
    by (simp add: sorted_iff_nth_mono)
  with assms(2,3,4) show False by simp
qed

text \<open>
  What the comments listener does: the displayed list is the stable sort of the snapshot
  by the key \<^verbatim>\<open>timestamp?.seconds || 0\<close>, the whole seconds of the timestamp, and 0
  without one. It is ascending in the key, it has the comments of the snapshot, and
  comments with equal keys keep the order of the snapshot. A comment without a timestamp
  stands before every comment whose key is positive.
\<close>

lemma comments_sorted_by_seconds:
  "comments (comments_onSnapshot snapshot s) = sort_key ts_key (fetched_comments snapshot) \<and>
   sorted (map ts_key (comments (comments_onSnapshot snapshot s))) \<and>
   mset (comments (comments_onSnapshot snapshot s)) = mset (fetched_comments snapshot) \<and>
   (\<forall>k. filter (\<lambda>c. ts_key c = k) (comments (comments_onSnapshot snapshot s)) =
        filter (\<lambda>c. ts_key c = k) (fetched_comments snapshot)) \<and>
   (\<forall>c. timestamp (data_c c) = None \<longrightarrow> ts_key c = 0) \<and>
   (\<forall>c t. timestamp (data_c c) = Some t \<longrightarrow> ts_key c = seconds t) \<and>
   (\<forall>i j. i < length (comments (comments_onSnapshot snapshot s)) \<and>
          j < length (comments (comments_onSnapshot snapshot s)) \<and>
          timestamp (data_c (comments (comments_onSnapshot snapshot s) ! i)) = None \<and>
          0 < ts_key (comments (comments_onSnapshot snapshot s) ! j) \<longrightarrow> i < j)"
proof (intro conjI allI impI)
  let ?cs = "comments (comments_onSnapshot snapshot s)"
  show eq: "?cs = sort_key ts_key (fetched_comments snapshot)"
    by (simp add: comments_onSnapshot_def)
  show srt: "sorted (map ts_key ?cs)"
    by (simp add: comments_onSnapshot_def)
  show "mset ?cs = mset (fetched_comments snapshot)"
    by (simp add: comments_onSnapshot_def)
  show "filter (\<lambda>c. ts_key c = k) ?cs = filter (\<lambda>c. ts_key c = k) (fetched_comments snapshot)" for k
    by (simp add: comments_onSnapshot_def sort_key_stable)
  show "ts_key c = 0" if "timestamp (data_c c) = None" for c
    using that by (simp add: ts_key_def)
  show "ts_key c = seconds t" if "timestamp (data_c c) = Some t" for c t
    using that by (simp add: ts_key_def)
  show "i < j"
    if h: "i < length ?cs \<and> j < length ?cs \<and> timestamp (data_c (?cs ! i)) = None \<and>
           0 < ts_key (?cs ! j)" for i j
  proof -
    from h have "ts_key (?cs ! i) = 0" by (simp add: ts_key_def)
    with h have "ts_key (?cs ! i) < ts_key (?cs ! j)" by simp
    with srt h show ?thesis by (blast intro: sorted_positions)
  qed
qed

lemma comments_sorted_by_seconds_example:
  "0 < length (comments (comments_onSnapshot snapshot_9 (session ''bob''))) \<and>
   1 < length (comments (comments_onSnapshot snapshot_9 (session ''bob''))) \<and>
   timestamp (data_c (comments (comments_onSnapshot snapshot_9 (session ''bob'')) ! 0)) = None \<and>
   0 < ts_key (comments (comments_onSnapshot snapshot_9 (session ''bob'')) ! 1) \<and>
   (0::nat) < 1 \<and>
   sorted (map ts_key (comments (comments_onSnapshot snapshot_9 (session ''bob'')))) \<and>
   map id_c (comments (comments_onSnapshot snapshot_9 (session ''bob''))) =
     [''b'', ''c'', ''d'', ''a'']"
proof -
  have ev: "0 < length (comments (comments_onSnapshot snapshot_9 (session ''bob''))) \<and>
   1 < length (comments (comments_onSnapshot snapshot_9 (session ''bob''))) \<and>
   timestamp (data_c (comments (comments_onSnapshot snapshot_9 (session ''bob'')) ! 0)) = None \<and>
   0 < ts_key (comments (comments_onSnapshot snapshot_9 (session ''bob'')) ! 1) \<and>
   map id_c (comments (comments_onSnapshot snapshot_9 (session ''bob''))) =
     [''b'', ''c'', ''d'', ''a'']"
    by code_simp
  from comments_sorted_by_seconds [of snapshot_9 "session ''bob''"] ev show ?thesis by blast
qed

lemma comments_sorted_example:
  "map ts_key (comments (comments_onSnapshot
      [(''a'', comment_1\<lparr>timestamp := Some \<lparr>seconds = 3, nanoseconds = 0\<rparr>\<rparr>),
       (''b'', comment_1\<lparr>timestamp := Some \<lparr>seconds = 1, nanoseconds = 0\<rparr>\<rparr>),
       (''c'', comment_1\<lparr>timestamp := Some \<lparr>seconds = 2, nanoseconds = 0\<rparr>\<rparr>)] (session ''bob''))) = [1, 2, 3]"
  by code_simp

text \<open>
  Claim C9, at the input where the code departs from it. Two comments are written in the
  same second, and the snapshot lists the later one first. Their keys are equal, so the
  listener leaves them as they come: the displayed list has the later comment before the
  earlier one, and it is not ascending in the timestamps.
\<close>

theorem same_second_out_of_order:
  "map id_c (fetched_comments snapshot_same_second) = [''late'', ''early''] \<and>
   map time_of (fetched_comments snapshot_same_second) = [10500000000, 10100000000] \<and>
   map ts_key (fetched_comments snapshot_same_second) = [10, 10] \<and>
   map id_c (comments (comments_onSnapshot snapshot_same_second (session ''bob''))) =
     [''late'', ''early''] \<and>
   \<not> sorted (map time_of (comments (comments_onSnapshot snapshot_same_second (session ''bob''))))"
  by code_simp

subsection \<open>Concurrent likes converge\<close>

lemma tx_invD:
  assumes "tx_inv us c"
  shows "distinct (likedBy_of (doc c))"
    and "set (likedBy_of (doc c)) = {u. status c u = Committed}"
    and "likes_of (doc c) = int (length (likedBy_of (doc c)))"
    and "u \<notin> set us \<Longrightarrow> status c u = Idle"
    and "status c u = HasRead d v \<Longrightarrow> v \<le> version c"
    and "status c u = HasRead d v \<Longrightarrow> v = version c \<Longrightarrow> d = doc c"
  using assms unfolding tx_inv_def by blast+

lemma tx_invI:
  assumes "distinct (likedBy_of (doc c))"
    and "set (likedBy_of (doc c)) = {u. status c u = Committed}"
    and "likes_of (doc c) = int (length (likedBy_of (doc c)))"
    and "\<And>u. u \<notin> set us \<Longrightarrow> status c u = Idle"
    and "\<And>u d v. status c u = HasRead d v \<Longrightarrow> v \<le> version c \<and> (v = version c \<longrightarrow> d = doc c)"
  shows "tx_inv us c"
  using assms unfolding tx_inv_def by blast

lemma tx_inv_init:
  "likes_of d = 0 \<Longrightarrow> likedBy_of d = [] \<Longrightarrow> tx_inv us (tx_init us d)"
  by (simp add: tx_inv_def tx_init_def)

lemma tx_inv_status_upd:
  assumes inv: "tx_inv us c" and nc: "status c u \<noteq> Committed" and ni: "status c u \<noteq> Idle"
    and x1: "x \<noteq> Committed"
    and x2: "\<And>d v. x = HasRead d v \<Longrightarrow> v \<le> version c \<and> (v = version c \<longrightarrow> d = doc c)"
  shows "tx_inv us (c\<lparr>status := (status c)(u := x)\<rparr>)"
proof (rule tx_invI)
  let ?c = "c\<lparr>status := (status c)(u := x)\<rparr>"
  show "distinct (likedBy_of (doc ?c))"
    using tx_invD(1) [OF inv] by simp
  have "{u'. status ?c u' = Committed} = {u'. status c u' = Committed}"
    using nc x1 by auto
  then show "set (likedBy_of (doc ?c)) = {u'. status ?c u' = Committed}"
    using tx_invD(2) [OF inv] by simp
  show "likes_of (doc ?c) = int (length (likedBy_of (doc ?c)))"
    using tx_invD(3) [OF inv] by simp
  show "status ?c w = Idle" if "w \<notin> set us" for w
  proof (cases "w = u")
    case True
    with that tx_invD(4) [OF inv, of u] ni show ?thesis by simp
  next
    case False
    with that tx_invD(4) [OF inv, of w] show ?thesis by simp
  qed
  show "v \<le> version ?c \<and> (v = version ?c \<longrightarrow> d = doc ?c)" if h: "status ?c w = HasRead d v" for w d v
  proof (cases "w = u")
    case True
    with h have "x = HasRead d v" by simp
    from x2 [OF this] show ?thesis by simp
  next
    case False
    with h have "status c w = HasRead d v" by simp
    from tx_invD(5) [OF inv this] tx_invD(6) [OF inv this] show ?thesis by simp
  qed
qed

lemma tx_inv_read:
  assumes "tx_inv us c"
  shows "tx_inv us (tx_step c (Read u))"
proof (cases "status c u")
  case Pending
  then have "tx_inv us (c\<lparr>status := (status c)(u := HasRead (doc c) (version c))\<rparr>)"
    by (intro tx_inv_status_upd [OF assms]) simp_all
  with Pending show ?thesis by simp
qed (use assms in simp_all)

lemma tx_inv_giveup:
  assumes "tx_inv us c"
  shows "tx_inv us (tx_step c (GiveUp u))"
proof (cases "status c u")
  case (HasRead d v)
  then have "tx_inv us (c\<lparr>status := (status c)(u := Exhausted)\<rparr>)"
    by (intro tx_inv_status_upd [OF assms]) simp_all
  with HasRead assms show ?thesis by simp
qed (use assms in simp_all)

lemma tx_inv_commit:
  assumes inv: "tx_inv us c"
  shows "tx_inv us (tx_step c (Commit u))"
proof (cases "status c u")
  case (HasRead d v)
  show ?thesis
  proof (cases "v = version c")
    case False
    from HasRead have "tx_inv us (c\<lparr>status := (status c)(u := Pending)\<rparr>)"
      by (intro tx_inv_status_upd [OF inv]) simp_all
    with HasRead False show ?thesis by simp
  next
    case True
    with tx_invD(6) [OF inv HasRead] have d: "d = doc c" by simp
    let ?c = "c\<lparr>doc := write_fields (toggle_fields u (doc c)) (doc c),
                  version := Suc (version c), status := (status c)(u := Committed)\<rparr>"
    from HasRead True d have step: "tx_step c (Commit u) = ?c" by simp
    from HasRead tx_invD(2) [OF inv] have "u \<notin> set (likedBy_of (doc c))" by simp
    then have tf: "toggle_fields u (doc c) = (likes_of (doc c) + 1, likedBy_of (doc c) @ [u])"
      by (rule toggle_fields_absent)
    have lb: "likedBy_of (doc ?c) = likedBy_of (doc c) @ [u]"
      and lk: "likes_of (doc ?c) = likes_of (doc c) + 1"
      by (simp_all add: tf)
    have "tx_inv us ?c"
    proof (rule tx_invI)
      show "distinct (likedBy_of (doc ?c))"
        using tx_invD(1) [OF inv] \<open>u \<notin> set (likedBy_of (doc c))\<close> by (simp only: lb) simp
      have "{u'. status ?c u' = Committed} = insert u {u'. status c u' = Committed}"
        by auto
      then show "set (likedBy_of (doc ?c)) = {u'. status ?c u' = Committed}"
        using tx_invD(2) [OF inv] by (simp only: lb) simp
      show "likes_of (doc ?c) = int (length (likedBy_of (doc ?c)))"
        using tx_invD(3) [OF inv] by (simp only: lb lk) simp
      show "status ?c w = Idle" if "w \<notin> set us" for w
      proof (cases "w = u")
        case True
        with that tx_invD(4) [OF inv, of u] HasRead show ?thesis by simp
      next
        case False
        with that tx_invD(4) [OF inv, of w] show ?thesis by simp
      qed
      show "v' \<le> version ?c \<and> (v' = version ?c \<longrightarrow> d' = doc ?c)"
        if h: "status ?c w = HasRead d' v'" for w d' v'
      proof -
        from h have "w \<noteq> u" by auto
        with h have "status c w = HasRead d' v'" by simp
        from tx_invD(5) [OF inv this] show ?thesis by simp
      qed
    qed
    with step show ?thesis by simp
  qed
qed (use assms in simp_all)

lemma tx_inv_step: "tx_inv us c \<Longrightarrow> tx_inv us (tx_step c e)"
  by (cases e) (simp_all only: tx_inv_read tx_inv_commit tx_inv_giveup)

lemma tx_inv_run: "tx_inv us c \<Longrightarrow> tx_inv us (tx_run evs c)"
  unfolding tx_run_def by (induction evs arbitrary: c) (simp_all add: tx_inv_step)

text \<open>
  Claim C1. Let \<open>N\<close> distinct callers \<open>us\<close> each run the like transaction on one fresh
  paper (\<open>likes\<close> 0, \<open>likedBy\<close> empty), their reads, commits, retries after a conflict
  and abandoned attempts interleaved in any order \<open>evs\<close>. Whenever every caller has
  committed, \<open>likes\<close> is \<open>N\<close> and \<open>likedBy\<close> holds exactly the \<open>N\<close> callers, each
  once.
\<close>

theorem like_convergence:
  assumes "distinct us" and "likes_of d = 0" and "likedBy_of d = []"
    and "\<forall>u \<in> set us. status (tx_run evs (tx_init us d)) u = Committed"
  shows "likes_of (doc (tx_run evs (tx_init us d))) = int (length us) \<and>
         set (likedBy_of (doc (tx_run evs (tx_init us d)))) = set us \<and>
         distinct (likedBy_of (doc (tx_run evs (tx_init us d)))) \<and>
         length (likedBy_of (doc (tx_run evs (tx_init us d)))) = length us"
proof -
  let ?c = "tx_run evs (tx_init us d)"
  have inv: "tx_inv us ?c"
    using assms(2,3) by (intro tx_inv_run tx_inv_init)
  then have dis: "distinct (likedBy_of (doc ?c))"
    and mem: "set (likedBy_of (doc ?c)) = {u. status ?c u = Committed}"
    and cnt: "likes_of (doc ?c) = int (length (likedBy_of (doc ?c)))"
    and idle: "\<forall>u. u \<notin> set us \<longrightarrow> status ?c u = Idle"
    by (simp_all add: tx_inv_def)
  have "{u. status ?c u = Committed} = set us"
  proof
    show "{u. status ?c u = Committed} \<subseteq> set us"
      using idle by force
    show "set us \<subseteq> {u. status ?c u = Committed}"
      using assms(4) by blast
  qed
  with mem have s: "set (likedBy_of (doc ?c)) = set us" by simp
  with dis assms(1) have "length (likedBy_of (doc ?c)) = length us"
    by (metis distinct_card)
  with s dis cnt show ?thesis by simp
qed

theorem like_convergence_witness:
  "distinct [''a'', ''b''] \<and> likes_of paper_T = 0 \<and> likedBy_of paper_T = [] \<and>
   status (tx_run conflict_schedule (tx_init [''a'', ''b''] paper_T)) ''a'' = Committed \<and>
   status (tx_run conflict_schedule (tx_init [''a'', ''b''] paper_T)) ''b'' = Committed \<and>
   likes_of (doc (tx_run conflict_schedule (tx_init [''a'', ''b''] paper_T))) = 2 \<and>
   set (likedBy_of (doc (tx_run conflict_schedule (tx_init [''a'', ''b''] paper_T)))) =
     {''a'', ''b''} \<and>
   likedBy_of (doc (tx_run conflict_schedule (tx_init [''a'', ''b''] paper_T))) = [''b'', ''a'']"
proof -
  have a: "distinct [''a'', ''b'']" by simp
  have b: "likes_of paper_T = 0" and c: "likedBy_of paper_T = []"
    by (simp_all add: paper_T_def likes_of_def likedBy_of_def)
  have d1: "status (tx_run conflict_schedule (tx_init [''a'', ''b''] paper_T)) ''a'' = Committed"
    and d2: "status (tx_run conflict_schedule (tx_init [''a'', ''b''] paper_T)) ''b'' = Committed"
    by code_simp+
  then have d: "\<forall>u \<in> set [''a'', ''b''].
      status (tx_run conflict_schedule (tx_init [''a'', ''b''] paper_T)) u = Committed"
    by simp
  have e: "likedBy_of (doc (tx_run conflict_schedule (tx_init [''a'', ''b''] paper_T))) =
      [''b'', ''a'']"
    by code_simp
  from like_convergence [OF a b c d] a b c d1 d2 e show ?thesis by simp
qed

text \<open>
  The hypothesis can be met for every list of callers: in the interleaving in which they
  run one after the other, every caller commits.
\<close>

lemma serial_commits:
  assumes "distinct us" and "\<forall>u \<in> set us. status c u = Pending"
  shows "(\<forall>u \<in> set us. status (tx_run (serial us) c) u = Committed) \<and>
         (\<forall>u. u \<notin> set us \<longrightarrow> status (tx_run (serial us) c) u = status c u)"
  using assms
proof (induction us arbitrary: c)
  case Nil
  then show ?case by (simp add: serial_def tx_run_def)
next
  case (Cons a us)
  let ?c1 = "tx_step (tx_step c (Read a)) (Commit a)"
  from Cons.prems have a: "status c a = Pending" by simp
  then have st: "status ?c1 = (status c)(a := Committed)"
    by auto
  with Cons.prems have "\<forall>u \<in> set us. status ?c1 u = Pending" by auto
  with Cons.prems Cons.IH [of ?c1]
  have ih: "(\<forall>u \<in> set us. status (tx_run (serial us) ?c1) u = Committed) \<and>
            (\<forall>u. u \<notin> set us \<longrightarrow> status (tx_run (serial us) ?c1) u = status ?c1 u)"
    by simp
  have run: "tx_run (serial (a # us)) c = tx_run (serial us) ?c1"
    by (simp add: serial_def tx_run_def)
  from Cons.prems have "a \<notin> set us" by simp
  with ih st run show ?case by auto
qed

lemma serial_all_committed:
  "distinct us \<Longrightarrow> \<forall>u \<in> set us. status (tx_run (serial us) (tx_init us d)) u = Committed"
  using serial_commits [of us "tx_init us d"] by (simp add: tx_init_def)

subsection \<open>The focused paper under a snapshot\<close>

text \<open>
  What the papers listener does to a focused paper: if the snapshot has a paper with the
  id of the focus, the focus becomes that paper of the snapshot, with the same id;
  otherwise the focus is cleared and the comment list is emptied by the effect that
  follows. The edit mode and the edit fields are as before in both cases.
\<close>

lemma find_fetched_papers:
  "find (\<lambda>p. id_p p = i) (fetched_papers snapshot) = Some up \<Longrightarrow>
   id_p up = i \<and> (i, data_p up) \<in> set snapshot"
  by (induction snapshot) (auto simp: fetched_papers_def split: if_splits)

lemma rerender_fields:
  "selectedPaper (rerender s s') = selectedPaper s'"
  "isEditing (rerender s s') = isEditing s'"
  "editTitle (rerender s s') = editTitle s'"
  "editContent (rerender s s') = editContent s'"
  "papers (rerender s s') = papers s'"
  by (simp_all add: rerender_def comments_effect_def)

lemma rerender_cleared:
  "selectedPaper s' = None \<Longrightarrow> selectedPaper s \<noteq> None \<Longrightarrow> comments (rerender s s') = []"
  by (auto simp: rerender_def comments_effect_def)

lemma papers_onSnapshot_fields:
  "isEditing (papers_onSnapshot snapshot s) = isEditing s"
  "editTitle (papers_onSnapshot snapshot s) = editTitle s"
  "editContent (papers_onSnapshot snapshot s) = editContent s"
  "papers (papers_onSnapshot snapshot s) = fetched_papers snapshot"
  by (simp_all add: papers_onSnapshot_def Let_def split: option.split)

lemma papers_onSnapshot_focus:
  "selectedPaper s = Some sel \<Longrightarrow>
   selectedPaper (papers_onSnapshot snapshot s) =
     find (\<lambda>p. id_p p = id_p sel) (fetched_papers snapshot)"
  by (simp add: papers_onSnapshot_def Let_def split: option.split)

lemma papers_snapshot_reconciles:
  assumes "selectedPaper s = Some sel"
  shows "(\<forall>up. find (\<lambda>p. id_p p = id_p sel) (fetched_papers snapshot) = Some up \<longrightarrow>
            selectedPaper (on_papers_snapshot snapshot s) = Some up \<and> id_p up = id_p sel \<and>
            (id_p sel, data_p up) \<in> set snapshot) \<and>
         (find (\<lambda>p. id_p p = id_p sel) (fetched_papers snapshot) = None \<longrightarrow>
            selectedPaper (on_papers_snapshot snapshot s) = None \<and>
            comments (on_papers_snapshot snapshot s) = []) \<and>
         papers (on_papers_snapshot snapshot s) = fetched_papers snapshot \<and>
         isEditing (on_papers_snapshot snapshot s) = isEditing s \<and>
         editTitle (on_papers_snapshot snapshot s) = editTitle s \<and>
         editContent (on_papers_snapshot snapshot s) = editContent s"
proof (intro conjI allI impI)
  fix up assume f: "find (\<lambda>p. id_p p = id_p sel) (fetched_papers snapshot) = Some up"
  show "selectedPaper (on_papers_snapshot snapshot s) = Some up"
    using assms f by (simp add: on_papers_snapshot_def rerender_fields papers_onSnapshot_focus)
  from find_fetched_papers [OF f]
  show "id_p up = id_p sel" and "(id_p sel, data_p up) \<in> set snapshot"
    by simp_all
next
  assume n: "find (\<lambda>p. id_p p = id_p sel) (fetched_papers snapshot) = None"
  with assms have c: "selectedPaper (papers_onSnapshot snapshot s) = None"
    by (simp add: papers_onSnapshot_focus)
  then show "selectedPaper (on_papers_snapshot snapshot s) = None"
    by (simp add: on_papers_snapshot_def rerender_fields)
  from c assms show "comments (on_papers_snapshot snapshot s) = []"
    by (simp add: on_papers_snapshot_def rerender_cleared)
qed (simp_all add: on_papers_snapshot_def rerender_fields papers_onSnapshot_fields)

text \<open>
  Claim C8, at the input where the code departs from it. \<open>bob\<close> has his paper \<open>p2\<close>
  open in edit mode, with one comment shown, and \<open>p2\<close> is deleted elsewhere. The next
  snapshot of the papers clears the focus and empties the comment list, but the session
  stays in edit mode; the Back button, which also clears the focus, leaves edit mode.
\<close>

theorem snapshot_keeps_edit_mode:
  "selectedPaper editing_session = Some \<lparr>id_p = ''p2'', data_p = paper_B\<rparr> \<and>
   isEditing editing_session \<and>
   comments editing_session = [\<lparr>id_c = ''c2'', data_c = comment_2\<rparr>] \<and>
   getDoc ''p2'' (papers_col store_3) = None \<and>
   selectedPaper (on_papers_snapshot (papers_col store_3) editing_session) = None \<and>
   comments (on_papers_snapshot (papers_col store_3) editing_session) = [] \<and>
   isEditing (on_papers_snapshot (papers_col store_3) editing_session) \<and>
   \<not> isEditing (back_to_dashboard editing_session)"
  by code_simp

subsection \<open>Who may edit and delete a paper\<close>

text \<open>
  \<^verbatim>\<open>handleUpdatePaper\<close> writes the edit fields to the selected paper for any signed-in
  caller: it never reads \<^verbatim>\<open>authorId\<close>. \<^verbatim>\<open>executeDeletePaper\<close> tests
  \<^verbatim>\<open>isPaperAuthor\<close>: for another caller it closes the dialogue and changes nothing
  else, reporting no error.
\<close>

lemma handleUpdatePaper_any_caller:
  assumes "db s" and "userId s = Some u" and "u \<noteq> []" and "selectedPaper s = Some p"
    and "trim (editTitle s) \<noteq> []" and "trim (editContent s) \<noteq> []"
    and "getDoc (id_p p) (papers_col st) = Some d"
  shows "handleUpdatePaper None now (s, st) =
           (s\<lparr>isEditing := False\<rparr>,
            st\<lparr>papers_col :=
                 writeDoc (id_p p)
                   (\<lambda>d. d\<lparr>title := trim (editTitle s), content := trim (editContent s),
                           updatedAt := Some now\<rparr>) (papers_col st)\<rparr>)"
  using assms by (simp add: handleUpdatePaper_def updateDoc_def)

lemma executeDeletePaper_not_author:
  "\<not> isPaperAuthor s \<Longrightarrow>
   executeDeletePaper f (s, st) = (s\<lparr>showDeleteConfirmation := False\<rparr>, st)"
  by (simp add: executeDeletePaper_def)

text \<open>
  Claim C5, at the input where the code departs from it. \<open>bob\<close> opens his own paper
  \<open>p2\<close> and presses Edit; \<open>p2\<close> is deleted from another session; the snapshot clears
  the focus and leaves edit mode on; \<open>bob\<close> clicks the card of \<open>p1\<close>, a paper of
  \<open>alice\<close>. Every control used on the way is rendered, the Save button is rendered, and
  \<^verbatim>\<open>handleUpdatePaper\<close> then overwrites the title and the content of \<open>p1\<close> with
  those of \<open>p2\<close> and reports no error, although the caller is not the author. In the
  same session \<^verbatim>\<open>executeDeletePaper\<close> leaves the store as it is.
\<close>

theorem edit_by_non_author:
  "card_rendered \<lparr>id_p = ''p2'', data_p = paper_B\<rparr> listed_session \<and>
   edit_button_rendered (onSelect \<lparr>id_p = ''p2'', data_p = paper_B\<rparr> listed_session) \<and>
   card_rendered \<lparr>id_p = ''p1'', data_p = paper_T\<rparr> stale_session \<and>
   save_button_rendered stale_edit_session \<and>
   userId stale_edit_session = Some ''bob'' \<and>
   selectedPaper stale_edit_session = Some \<lparr>id_p = ''p1'', data_p = paper_T\<rparr> \<and>
   authorId paper_T = ''alice'' \<and>
   \<not> isPaperAuthor stale_edit_session \<and>
   getDoc ''p1'' (papers_col store_3) = Some paper_T \<and>
   getDoc ''p1'' (papers_col (snd (handleUpdatePaper None \<lparr>seconds = 9, nanoseconds = 0\<rparr>
       (stale_edit_session, store_3)))) =
     Some (paper_T\<lparr>title := ''B'', content := ''D'', updatedAt := Some \<lparr>seconds = 9, nanoseconds = 0\<rparr>\<rparr>) \<and>
   dbError (fst (handleUpdatePaper None \<lparr>seconds = 9, nanoseconds = 0\<rparr> (stale_edit_session, store_3))) = None \<and>
   snd (executeDeletePaper no_faults (stale_edit_session, store_3)) = store_3"
  by code_simp

theorem edit_by_non_author_witness:
  "userId stale_edit_session = Some ''bob'' \<and> authorId paper_T = ''alice'' \<and>
   title paper_T = ''T'' \<and>
   (\<exists>d. getDoc ''p1'' (papers_col (snd (handleUpdatePaper None \<lparr>seconds = 9, nanoseconds = 0\<rparr>
            (stale_edit_session, store_3)))) = Some d \<and> title d = ''B'')"
proof -
  have "title paper_T = ''T''" by (simp add: paper_T_def)
  with edit_by_non_author show ?thesis by simp
qed

subsection \<open>Who may delete a comment\<close>

lemma getDoc_deleteDoc: "getDoc k (deleteDoc k col) = None"
  by (simp add: getDoc_def deleteDoc_def map_of_eq_None_iff image_iff)

text \<open>
  Claim C6, amended. The delete button of a comment is rendered only for the caller whose
  identity is the comment's \<open>userId\<close>: for any other caller there is no click on it, and
  for that caller a click on a displayed comment runs \<^verbatim>\<open>handleDeleteComment\<close>.
  \<^verbatim>\<open>handleDeleteComment\<close> itself tests only that a caller is signed in: given any
  comment id it removes that comment and does not fail.
\<close>

theorem comment_delete_gate:
  "(comment_doc.userId (data_c c) \<noteq> u \<longrightarrow>
      click_delete_comment fault c (s\<lparr>userId := Some u\<rparr>, st) = None) \<and>
   (selectedPaper s \<noteq> None \<and> c \<in> set (comments s) \<and>
    userId s = Some (comment_doc.userId (data_c c)) \<longrightarrow>
      click_delete_comment fault c (s, st) = Some (handleDeleteComment fault (id_c c) (s, st))) \<and>
   (db s \<and> \<not> falsy (userId s) \<longrightarrow>
      handleDeleteComment None k (s, st) =
        (s, st\<lparr>comments_col := deleteDoc k (comments_col st)\<rparr>) \<and>
      getDoc k (comments_col (snd (handleDeleteComment None k (s, st)))) = None)"
  by (auto simp: click_delete_comment_def CommentItem_isAuthor_def handleDeleteComment_def
      getDoc_deleteDoc)

theorem comment_delete_gate_witness:
  "comment_doc.userId (data_c \<lparr>id_c = ''c1'', data_c = comment_1\<rparr>) \<noteq> ''bob'' \<and>
   click_delete_comment None \<lparr>id_c = ''c1'', data_c = comment_1\<rparr> (opened_p1 ''bob'', store_4) = None \<and>
   selectedPaper (opened_p1 ''carol'') \<noteq> None \<and>
   \<lparr>id_c = ''c1'', data_c = comment_1\<rparr> \<in> set (comments (opened_p1 ''carol'')) \<and>
   userId (opened_p1 ''carol'') = Some (comment_doc.userId comment_1) \<and>
   db (opened_p1 ''carol'') \<and> \<not> falsy (userId (opened_p1 ''carol'')) \<and>
   click_delete_comment None \<lparr>id_c = ''c1'', data_c = comment_1\<rparr> (opened_p1 ''carol'', store_4) =
     Some (opened_p1 ''carol'', store_4\<lparr>comments_col := [(''c3'', comment_3)]\<rparr>)"
proof -
  have a: "comment_doc.userId (data_c \<lparr>id_c = ''c1'', data_c = comment_1\<rparr>) \<noteq> ''bob''"
    by code_simp
  have b: "selectedPaper (opened_p1 ''carol'') \<noteq> None \<and>
   \<lparr>id_c = ''c1'', data_c = comment_1\<rparr> \<in> set (comments (opened_p1 ''carol'')) \<and>
   userId (opened_p1 ''carol'') = Some (comment_doc.userId (data_c \<lparr>id_c = ''c1'', data_c = comment_1\<rparr>))"
    by code_simp
  have c: "db (opened_p1 ''carol'') \<and> \<not> falsy (userId (opened_p1 ''carol''))"
    by code_simp
  have d: "(opened_p1 ''bob'')\<lparr>userId := Some ''bob''\<rparr> = opened_p1 ''bob''"
    by code_simp
  have e: "deleteDoc ''c1'' (comments_col store_4) = [(''c3'', comment_3)]"
    by code_simp
  from comment_delete_gate [of "\<lparr>id_c = ''c1'', data_c = comment_1\<rparr>" "''bob''" None "opened_p1 ''bob''" store_4] a d
  have 1: "click_delete_comment None \<lparr>id_c = ''c1'', data_c = comment_1\<rparr> (opened_p1 ''bob'', store_4) = None"
    by simp
  from comment_delete_gate [of "\<lparr>id_c = ''c1'', data_c = comment_1\<rparr>" "''carol''" None "opened_p1 ''carol''" store_4 "''c1''"] b c
  have 2: "click_delete_comment None \<lparr>id_c = ''c1'', data_c = comment_1\<rparr> (opened_p1 ''carol'', store_4) =
     Some (opened_p1 ''carol'', store_4\<lparr>comments_col := deleteDoc ''c1'' (comments_col store_4)\<rparr>)"
    by simp
  from a b c 1 2 e show ?thesis by simp
qed

text \<open>
  Claim C6 as stated fails: \<^verbatim>\<open>handleDeleteComment\<close> called by \<open>bob\<close> with the id of
  a comment of \<open>carol\<close> removes the comment and leaves the session without an error.
\<close>

theorem deleteComment_by_other_counterexample:
  "comment_doc.userId comment_1 = ''carol'' \<and>
   getDoc ''c1'' (comments_col store_1) = Some comment_1 \<and>
   userId (session ''bob'') = Some ''bob'' \<and>
   getDoc ''c1'' (comments_col (snd (handleDeleteComment None ''c1'' (session ''bob'', store_1)))) = None \<and>
   fst (handleDeleteComment None ''c1'' (session ''bob'', store_1)) = session ''bob''"
  by code_simp

subsection \<open>The cascade of a deletion\<close>

lemma delete_each_filter:
  "delete_each rejected ks col = filter (\<lambda>kd. fst kd \<notin> set ks - set rejected) col"
  by (induction ks arbitrary: col) (auto simp: deleteDoc_def intro: filter_cong)

lemma getDoc_filter_out:
  "k \<in> S \<Longrightarrow> getDoc k (filter (\<lambda>kd. fst kd \<notin> S) col) = None"
  by (auto simp: getDoc_def map_of_eq_None_iff)

lemma executeDeletePaper_author:
  assumes "db s" and "userId s = Some u" and "u \<noteq> []" and "selectedPaper s = Some p"
    and "authorId (data_p p) = u" and "paper_delete_fault f = None"
  shows "executeDeletePaper f (s, st) =
     (case query_fault f of
        Some msg \<Rightarrow>
          (s\<lparr>console := console s @ [''Error deleting paper:''],
             dbError := Some (''Failed to delete paper: '' @ msg),
             showDeleteConfirmation := False\<rparr>,
           st\<lparr>papers_col := deleteDoc (id_p p) (papers_col st)\<rparr>)
      | None \<Rightarrow>
          (s\<lparr>selectedPaper := None, showDeleteConfirmation := False, comments := []\<rparr>,
           st\<lparr>papers_col := deleteDoc (id_p p) (papers_col st),
              comments_col :=
                delete_each (comment_delete_faults f)
                  (map fst (comments_query (id_p p) (comments_col st))) (comments_col st)\<rparr>))"
  using assms
  by (simp add: executeDeletePaper_def isPaperAuthor_def Let_def rerender_def comments_effect_def
      split: option.splits)

text \<open>
  What the cascade does once the author's deletion of the paper has succeeded. The paper
  is gone from the store and the dialogue is closed. If the query for the comments
  succeeds, the focus is cleared and the comment list emptied whatever happens to the
  deletions of the comments; a rejected deletion stops no other one (every matched comment
  whose deletion is not rejected is gone) and reaches neither the error field nor the
  console. If the query is rejected, the focus stays on the deleted paper, the error is
  written to the console and to the error field, and no comment is removed.
\<close>

lemma executeDeletePaper_cascade:
  assumes "db s" and "userId s = Some u" and "u \<noteq> []" and "selectedPaper s = Some p"
    and "authorId (data_p p) = u" and "paper_delete_fault f = None"
  shows "papers_col (snd (executeDeletePaper f (s, st))) = deleteDoc (id_p p) (papers_col st) \<and>
     \<not> showDeleteConfirmation (fst (executeDeletePaper f (s, st))) \<and>
     (query_fault f = None \<longrightarrow>
        selectedPaper (fst (executeDeletePaper f (s, st))) = None \<and>
        comments (fst (executeDeletePaper f (s, st))) = [] \<and>
        dbError (fst (executeDeletePaper f (s, st))) = dbError s \<and>
        console (fst (executeDeletePaper f (s, st))) = console s \<and>
        comments_col (snd (executeDeletePaper f (s, st))) =
          filter (\<lambda>kd. fst kd \<notin> set (map fst (comments_query (id_p p) (comments_col st)))
                                  - set (comment_delete_faults f)) (comments_col st) \<and>
        (\<forall>k d. (k, d) \<in> set (comments_col st) \<and> paperId d = id_p p \<and>
               k \<notin> set (comment_delete_faults f) \<longrightarrow>
               getDoc k (comments_col (snd (executeDeletePaper f (s, st)))) = None)) \<and>
     (\<forall>msg. query_fault f = Some msg \<longrightarrow>
        selectedPaper (fst (executeDeletePaper f (s, st))) = Some p \<and>
        dbError (fst (executeDeletePaper f (s, st))) = Some (''Failed to delete paper: '' @ msg) \<and>
        console (fst (executeDeletePaper f (s, st))) = console s @ [''Error deleting paper:''] \<and>
        comments_col (snd (executeDeletePaper f (s, st))) = comments_col st)"
proof -
  have "getDoc k (filter (\<lambda>kd. fst kd \<notin> set (map fst (comments_query (id_p p) (comments_col st)))
                                  - set (comment_delete_faults f)) (comments_col st)) = None"
    if "(k, d) \<in> set (comments_col st)" "paperId d = id_p p" "k \<notin> set (comment_delete_faults f)"
    for k d
  proof -
    from that have "(k, d) \<in> set (comments_query (id_p p) (comments_col st))"
      by (simp add: comments_query_def)
    then have "k \<in> set (map fst (comments_query (id_p p) (comments_col st)))"
      by force
    with that(3) show ?thesis by (intro getDoc_filter_out) simp
  qed
  then have key: "\<forall>k d. (k, d) \<in> set (comments_col st) \<and> paperId d = id_p p \<and>
               k \<notin> set (comment_delete_faults f) \<longrightarrow>
      getDoc k (filter (\<lambda>kd. fst kd \<notin> set (map fst (comments_query (id_p p) (comments_col st)))
                                  - set (comment_delete_faults f)) (comments_col st)) = None"
    by blast
  show ?thesis
  proof (cases "query_fault f")
    case None
    have r: "executeDeletePaper f (s, st) =
          (s\<lparr>selectedPaper := None, showDeleteConfirmation := False, comments := []\<rparr>,
           st\<lparr>papers_col := deleteDoc (id_p p) (papers_col st),
              comments_col :=
                filter (\<lambda>kd. fst kd \<notin> set (map fst (comments_query (id_p p) (comments_col st)))
                                  - set (comment_delete_faults f)) (comments_col st)\<rparr>)"
      by (simp only: executeDeletePaper_author [OF assms] None delete_each_filter option.case)
    from None key show ?thesis
      by (simp only: r fst_conv snd_conv) simp
  next
    case (Some msg)
    with assms(4) show ?thesis
      by (simp add: executeDeletePaper_author [OF assms])
  qed
qed

lemma executeDeletePaper_cascade_example:
  "db confirming_session \<and> userId confirming_session = Some ''alice'' \<and> ''alice'' \<noteq> [] \<and>
   selectedPaper confirming_session = Some \<lparr>id_p = ''p1'', data_p = paper_T\<rparr> \<and>
   authorId (data_p \<lparr>id_p = ''p1'', data_p = paper_T\<rparr>) = ''alice'' \<and>
   paper_delete_fault comment_rejected = None \<and> query_fault comment_rejected = None \<and>
   (''c3'', comment_3) \<in> set (comments_col store_4) \<and> paperId comment_3 = ''p1'' \<and>
   ''c3'' \<notin> set (comment_delete_faults comment_rejected) \<and>
   query_fault query_rejected = Some ''unavailable'' \<and>
   selectedPaper (fst (executeDeletePaper comment_rejected (confirming_session, store_4))) = None \<and>
   getDoc ''c3'' (comments_col (snd (executeDeletePaper comment_rejected (confirming_session, store_4)))) = None \<and>
   selectedPaper (fst (executeDeletePaper query_rejected (confirming_session, store_4))) =
     Some \<lparr>id_p = ''p1'', data_p = paper_T\<rparr>"
proof -
  have a: "db confirming_session" and b: "userId confirming_session = Some ''alice''"
    and c: "''alice'' \<noteq> []"
    and d: "selectedPaper confirming_session = Some \<lparr>id_p = ''p1'', data_p = paper_T\<rparr>"
    and e: "authorId (data_p \<lparr>id_p = ''p1'', data_p = paper_T\<rparr>) = ''alice''"
    and f: "paper_delete_fault comment_rejected = None"
    and g: "query_fault comment_rejected = None"
    and h: "(''c3'', comment_3) \<in> set (comments_col store_4) \<and> paperId comment_3 = ''p1'' \<and>
            ''c3'' \<notin> set (comment_delete_faults comment_rejected)"
    and i: "paper_delete_fault query_rejected = None"
    and j: "query_fault query_rejected = Some ''unavailable''"
    by code_simp+
  note cf = executeDeletePaper_cascade [OF a b c d e f, of store_4]
  from cf g
  have x: "selectedPaper (fst (executeDeletePaper comment_rejected (confirming_session, store_4))) = None"
    by blast
  have idp: "id_p \<lparr>id_p = ''p1'', data_p = paper_T\<rparr> = ''p1''"
    by simp
  from cf [unfolded idp] g h
  have y: "getDoc ''c3'' (comments_col (snd (executeDeletePaper comment_rejected
             (confirming_session, store_4)))) = None"
    by blast
  from executeDeletePaper_cascade [OF a b c d e i, of store_4] j
  have 2: "selectedPaper (fst (executeDeletePaper query_rejected (confirming_session, store_4))) =
     Some \<lparr>id_p = ''p1'', data_p = paper_T\<rparr>"
    by blast
  from a b c d e f g h j x y 2 show ?thesis by blast
qed

text \<open>
  After the deletion of the paper, the next snapshot of the papers no longer has it, and
  the listener clears the focus, whether the query for the comments was rejected or not.
\<close>

lemma find_after_deleteDoc:
  "find (\<lambda>p. id_p p = i) (fetched_papers (deleteDoc i col)) = None"
  by (induction col) (simp_all add: fetched_papers_def deleteDoc_def)

lemma focus_cleared_by_next_snapshot:
  assumes "db s" and "userId s = Some u" and "u \<noteq> []" and "selectedPaper s = Some p"
    and "authorId (data_p p) = u" and "paper_delete_fault f = None"
  shows "selectedPaper (on_papers_snapshot (papers_col (snd (executeDeletePaper f (s, st))))
           (fst (executeDeletePaper f (s, st)))) = None"
proof (cases "query_fault f")
  case None
  then show ?thesis
    by (simp add: executeDeletePaper_author [OF assms] on_papers_snapshot_def rerender_fields
        papers_onSnapshot_def)
next
  case (Some msg)
  let ?s = "fst (executeDeletePaper f (s, st))"
  from Some assms(4) have sel: "selectedPaper ?s = Some p"
    and col: "papers_col (snd (executeDeletePaper f (s, st))) = deleteDoc (id_p p) (papers_col st)"
    by (simp_all add: executeDeletePaper_author [OF assms])
  show ?thesis
    by (simp only: col on_papers_snapshot_def rerender_fields papers_onSnapshot_focus [OF sel]
        find_after_deleteDoc)
qed

text \<open>
  Claim C7, at the inputs where the code departs from it. \<open>alice\<close> deletes her paper
  \<open>p1\<close>, which has the comments \<open>c1\<close> and \<open>c3\<close>. When the store rejects the deletion
  of \<open>c1\<close>, the paper and \<open>c3\<close> are deleted and the focus is cleared, but the rejection
  is written neither to the console nor to the error field; \<^verbatim>\<open>handleDeleteComment\<close>
  writes the same rejection to both. When the store rejects the query for the comments,
  the paper is deleted and the error is reported, but the focus stays on the deleted paper
  until the next snapshot of the papers clears it.
\<close>

theorem cascade_rejections_unreported:
  "isPaperAuthor confirming_session \<and>
   papers_col (snd (executeDeletePaper comment_rejected (confirming_session, store_4))) = [] \<and>
   comments_col (snd (executeDeletePaper comment_rejected (confirming_session, store_4))) =
     [(''c1'', comment_1)] \<and>
   selectedPaper (fst (executeDeletePaper comment_rejected (confirming_session, store_4))) = None \<and>
   console (fst (executeDeletePaper comment_rejected (confirming_session, store_4))) = [] \<and>
   dbError (fst (executeDeletePaper comment_rejected (confirming_session, store_4))) = None \<and>
   console (fst (handleDeleteComment (Some ''unavailable'') ''c1'' (confirming_session, store_4))) =
     [''Error deleting comment:''] \<and>
   dbError (fst (handleDeleteComment (Some ''unavailable'') ''c1'' (confirming_session, store_4))) =
     Some ''Failed to delete comment: unavailable'' \<and>
   papers_col (snd (executeDeletePaper query_rejected (confirming_session, store_4))) = [] \<and>
   console (fst (executeDeletePaper query_rejected (confirming_session, store_4))) =
     [''Error deleting paper:''] \<and>
   selectedPaper (fst (executeDeletePaper query_rejected (confirming_session, store_4))) =
     Some \<lparr>id_p = ''p1'', data_p = paper_T\<rparr> \<and>
   selectedPaper
     (on_papers_snapshot
        (papers_col (snd (executeDeletePaper query_rejected (confirming_session, store_4))))
        (fst (executeDeletePaper query_rejected (confirming_session, store_4)))) = None"
  by code_simp

theorem cascade_rejections_unreported_witness:
  "comment_delete_faults comment_rejected = [''c1''] \<and>
   getDoc ''c1'' (comments_col store_4) = Some comment_1 \<and>
   console (fst (executeDeletePaper comment_rejected (confirming_session, store_4))) = [] \<and>
   dbError (fst (executeDeletePaper comment_rejected (confirming_session, store_4))) = None"
proof -
  have "comment_delete_faults comment_rejected = [''c1'']"
    and "getDoc ''c1'' (comments_col store_4) = Some comment_1"
    by (simp_all add: comment_rejected_def store_4_def getDoc_def)
  with cascade_rejections_unreported show ?thesis by simp
qed

subsection \<open>The end-to-end scenario\<close>

text \<open>
  \<open>alice\<close> publishes the paper T; \<open>bob\<close> likes it and takes the like back;
  \<open>carol\<close> opens it and comments; \<open>alice\<close> deletes it, and the paper and the comment
  are gone.
\<close>

lemma end_to_end_scenario:
  "snd (handleAddPaper None ''p1'' \<lparr>seconds = 1, nanoseconds = 0\<rparr>
         ((session ''alice'')\<lparr>newPaperTitle := '' T'', newPaperContent := ''C ''\<rparr>, store_0)) =
     store_0\<lparr>papers_col := [(''p1'', paper_T)]\<rparr> \<and>
   snd (handleLikePaper None ''p1'' (session ''bob'', store_0\<lparr>papers_col := [(''p1'', paper_T)]\<rparr>)) =
     store_0\<lparr>papers_col := [(''p1'', paper_T\<lparr>likes := Some 1, likedBy := Some [''bob'']\<rparr>)]\<rparr> \<and>
   snd (handleLikePaper None ''p1'' (session ''bob'',
          store_0\<lparr>papers_col := [(''p1'', paper_T\<lparr>likes := Some 1, likedBy := Some [''bob'']\<rparr>)]\<rparr>)) =
     store_0\<lparr>papers_col := [(''p1'', paper_T)]\<rparr> \<and>
   snd (handleAddComment None ''c1'' \<lparr>seconds = 2, nanoseconds = 0\<rparr>
         ((onSelect \<lparr>id_p = ''p1'', data_p = paper_T\<rparr> (session ''carol''))\<lparr>newCommentText := ''hello''\<rparr>,
          store_0\<lparr>papers_col := [(''p1'', paper_T)]\<rparr>)) = store_1 \<and>
   snd (executeDeletePaper no_faults
         (onSelect \<lparr>id_p = ''p1'', data_p = paper_T\<rparr> (session ''alice''), store_1)) = store_0"
  by code_simp

end
